theory Spec2Isabelle
  imports Main "HOL-Library.Word" "HOL-Library.Log_Nat"
begin

unbundle bit_operations_syntax

section \<open>LLAMA collector: machine types\<close>

text \<open>
  Go's fixed-width unsigned integers are words: \<open>uint64\<close> arithmetic wraps around and
  comparisons are unsigned, exactly as \<open>+\<close>, \<open>-\<close> and \<open><\<close> on \<open>64 word\<close> do.
\<close>

type_synonym uint64 = "64 word"
type_synonym byte = "8 word"

text \<open>A Go \<open>error\<close> is nil or carries a message: \<open>string option\<close>.\<close>

type_synonym error = "string option"

section \<open>Legacy wire format (udp.go)\<close>

text \<open>
  \<open>UdpData\<close> (udp.go). \<open>Signature\<close> is a \<open>[10]byte\<close> array: a list here, of length 10 in
  every value of the Go type.
\<close>

record UdpData =
  Signature :: "byte list"
  Tos :: byte
  Sent :: uint64
  Rcvd :: uint64
  RTT :: uint64
  Lost :: byte

text \<open>
  \<open>binary.LittleEndian.PutUint64\<close> and \<open>binary.LittleEndian.Uint64\<close> of Go's
  \<open>encoding/binary\<close>: byte \<open>i\<close> is \<open>byte(v >> (8 * i))\<close>, and the value is the bitwise or
  of the bytes shifted back.
\<close>

definition PutUint64 :: "uint64 \<Rightarrow> byte list" where
  "PutUint64 v =
     [ucast v, ucast (drop_bit 8 v), ucast (drop_bit 16 v), ucast (drop_bit 24 v),
      ucast (drop_bit 32 v), ucast (drop_bit 40 v), ucast (drop_bit 48 v),
      ucast (drop_bit 56 v)]"

definition Uint64 :: "byte list \<Rightarrow> uint64" where
  "Uint64 b =
     ucast (b ! 0) OR push_bit 8 (ucast (b ! 1)) OR push_bit 16 (ucast (b ! 2))
       OR push_bit 24 (ucast (b ! 3)) OR push_bit 32 (ucast (b ! 4))
       OR push_bit 40 (ucast (b ! 5)) OR push_bit 48 (ucast (b ! 6))
       OR push_bit 56 (ucast (b ! 7))"

text \<open>
  \<open>PackUdpData\<close> (udp.go): \<open>binary.Write\<close> lays the fields out in declaration order with no
  padding, 36 bytes in all, and cannot fail on a struct of fixed-size fields written to a
  \<open>bytes.Buffer\<close>; the function returns a nil error.
\<close>

definition PackUdpData :: "UdpData \<Rightarrow> byte list \<times> error" where
  "PackUdpData data =
     (Signature data @ [UdpData.Tos data] @ PutUint64 (UdpData.Sent data)
        @ PutUint64 (UdpData.Rcvd data) @ PutUint64 (UdpData.RTT data)
        @ [UdpData.Lost data], None)"

text \<open>
  \<open>UnpackUdpData\<close> (udp.go): \<open>binary.Read\<close> reads exactly 36 bytes from the buffer, and fails
  without decoding anything when there are fewer; bytes beyond the 36th are ignored. On
  failure the function returns the zero \<open>UdpData\<close> and the error "Invalid data received".
\<close>

definition zero_UdpData :: UdpData where
  "zero_UdpData =
     \<lparr>Signature = replicate 10 0, UdpData.Tos = 0, UdpData.Sent = 0, UdpData.Rcvd = 0,
      UdpData.RTT = 0, UdpData.Lost = 0\<rparr>"

definition UnpackUdpData :: "byte list \<Rightarrow> UdpData \<times> error" where
  "UnpackUdpData data =
     (if length data < 36 then (zero_UdpData, Some ''Invalid data received'')
      else (\<lparr>Signature = take 10 data, UdpData.Tos = data ! 10,
              UdpData.Sent = Uint64 (take 8 (drop 11 data)),
              UdpData.Rcvd = Uint64 (take 8 (drop 19 data)),
              UdpData.RTT = Uint64 (take 8 (drop 27 data)),
              UdpData.Lost = data ! 35\<rparr>, None))"

section \<open>Probe signatures (util.go)\<close>

text \<open>
  \<open>NewID\<close> draws a UUID from \<open>uuid.NewV4\<close> of the library \<open>satori/go.uuid\<close>, whose
  \<open>UUID\<close> type is \<open>[16]byte\<close>, and returns its last 10 bytes as a string. The random
  UUID is the parameter of the model. A Go string is a sequence of bytes, and
  \<open>string(last10)\<close> keeps them as they are.
\<close>

definition NewID :: "byte list \<Rightarrow> byte list" where
  "NewID fullUUID = drop (length fullUUID - 10) fullUUID"

text \<open>
  \<open>IDToBytes\<close>: \<open>copy\<close> into a zeroed \<open>[10]byte\<close> copies the first 10 bytes of the string,
  or all of a shorter one.
\<close>

definition IDToBytes :: "byte list \<Rightarrow> byte list" where
  "IDToBytes ident = take 10 ident @ replicate (10 - length ident) 0"

section \<open>Probes and results\<close>

text \<open>
  \<open>PathDist\<close> (port.go). \<open>net.IP\<close> is a byte slice. The structs below hold a
  \<open>*PathDist\<close>; the pointer may be nil, which is \<open>None\<close> here.
\<close>

record PathDist =
  SrcIP :: "byte list"
  SrcPort :: int
  DstIP :: "byte list"
  DstPort :: int
  Proto :: string

text \<open>\<open>Probe\<close> (port.go): one probe as it sits in a Port's cache.\<close>

record Probe =
  Pd :: "PathDist option"
  CSent :: uint64
  CRcvd :: uint64
  Tos :: byte

text \<open>\<open>Result\<close> (resulthandler.go): the characteristics of one completed probe.\<close>

record Result =
  Pd :: "PathDist option"
  RTT :: uint64
  Done :: uint64
  Lost :: bool

section \<open>ResultHandler: from probes to results\<close>

text \<open>
  \<open>HandleMinorError\<close> (util.go) prints one log line when the error is not nil and does
  nothing else; the model returns the lines it prints. \<open>log.Println("ERROR: ", err)\<close> puts
  a space between its operands; the date and time that the logger puts in front are left
  out.
\<close>

definition HandleMinorError :: "error \<Rightarrow> string list" where
  "HandleMinorError err = (case err of None \<Rightarrow> [] | Some msg \<Rightarrow> [''ERROR:  '' @ msg])"

text \<open>
  \<open>RTT\<close> (resulthandler.go) updates the result it is given in place and returns an error;
  the model returns the error together with the updated result. The three branches are
  the source's, in its order.
\<close>

definition RTT :: "Probe \<Rightarrow> Result \<Rightarrow> error \<times> Result" where
  "RTT probe result =
     (if CRcvd probe = 0 then (None, result\<lparr>Result.Lost := True\<rparr>)
      else if CSent probe > CRcvd probe then
        (Some ''Probe send/recv times appear to be out of order'',
         result\<lparr>Result.Lost := True\<rparr>)
      else (None, result\<lparr>Result.RTT := CRcvd probe - CSent probe\<rparr>))"

text \<open>
  \<open>Process\<close> (resulthandler.go) builds a Result whose \<open>Pd\<close> and \<open>Done\<close> come from the
  probe and whose other fields are Go's zero values, runs \<open>RTT\<close> on it, and hands the
  error to \<open>HandleMinorError\<close>. The model returns the Result and the lines logged.
\<close>

definition Process :: "Probe \<Rightarrow> Result \<times> string list" where
  "Process probe =
     (let result = \<lparr>Result.Pd = Probe.Pd probe, Result.RTT = 0,
                     Result.Done = CRcvd probe, Result.Lost = False\<rparr>;
          (err, result') = RTT probe result
      in (result', HandleMinorError err))"

section \<open>Go's \<open>float64\<close>\<close>

text \<open>
  The Summarizer computes in \<open>float64\<close>, IEEE 754 binary64 with Go's rounding (to nearest,
  ties to even). A value is a finite number, an infinity or NaN. A finite value is kept as
  the rational number it denotes; every operation computes the exact rational result and
  rounds it with \<open>round_f64\<close>, which is what IEEE 754 prescribes. The two zeros are not
  told apart: they compare equal in Go, and they differ only as divisors, where the code
  below divides by converted integers and by the constant \<open>1000000.0\<close> only, never by a
  negative zero.
\<close>

datatype float64 = Finite rat | PosInf | NegInf | NaN

text \<open>\<open>pow2 e\<close> is \<open>2 ^ e\<close> for an integer exponent of either sign.\<close>

definition pow2 :: "int \<Rightarrow> rat" where
  "pow2 e = (if 0 \<le> e then 2 ^ nat e else 1 / 2 ^ nat (- e))"

text \<open>
  \<open>floor_log2 x\<close>, for \<open>x > 0\<close>, is the exponent \<open>e\<close> with \<open>2 ^ e \<le> x < 2 ^ (e + 1)\<close>. From
  1 on it is one less than the bit length of the integer part of \<open>x\<close>; below 1 it is
  \<open>- k\<close> for the least \<open>k\<close> with \<open>1 / x \<le> 2 ^ k\<close>.
\<close>

definition floor_log2 :: "rat \<Rightarrow> int" where
  "floor_log2 x = (if 1 \<le> x then bitlen \<lfloor>x\<rfloor> - 1 else - bitlen (\<lceil>1 / x\<rceil> - 1))"

definition round_half_even :: "rat \<Rightarrow> int" where
  "round_half_even y =
     (let f = \<lfloor>y\<rfloor>; r = y - of_int f
      in if r < 1 / 2 then f else if 1 / 2 < r then f + 1
         else if even f then f else f + 1)"

text \<open>
  Rounding to binary64: the significand has 53 bits, so the spacing of the representable
  numbers around \<open>x\<close> is \<open>2 ^ q\<close> with \<open>q = floor_log2 \<bar>x\<bar> - 52\<close>, and never below
  \<open>2 ^ (-1074)\<close> (the subnormal numbers). The result is the multiple of \<open>2 ^ q\<close> nearest
  to \<open>x\<close>, the even one on a tie, and an infinity when that reaches \<open>2 ^ 1024\<close>.
\<close>

definition round_f64 :: "rat \<Rightarrow> float64" where
  "round_f64 x =
     (if x = 0 then Finite 0
      else let q = max (floor_log2 \<bar>x\<bar> - 52) (- 1074);
               r = of_int (round_half_even (\<bar>x\<bar> / pow2 q)) * pow2 q
           in if pow2 1024 \<le> r then (if 0 < x then PosInf else NegInf)
              else Finite (sgn x * r))"

text \<open>
  The arithmetic the code uses: \<open>+\<close>, \<open>*\<close>, \<open>/\<close> and \<open><\<close> (\<open>a > b\<close> is \<open>b < a\<close>). NaN
  propagates, \<open>Inf - Inf\<close>, \<open>0 * Inf\<close>, \<open>Inf / Inf\<close> and \<open>0 / 0\<close> are NaN, a non-zero number
  divided by zero is an infinity, and every comparison with NaN is false.
\<close>

definition f64_neg :: "float64 \<Rightarrow> float64" where
  "f64_neg a =
     (case a of Finite x \<Rightarrow> Finite (- x) | PosInf \<Rightarrow> NegInf | NegInf \<Rightarrow> PosInf | NaN \<Rightarrow> NaN)"

definition f64_add :: "float64 \<Rightarrow> float64 \<Rightarrow> float64" where
  "f64_add a b =
     (case a of
        NaN \<Rightarrow> NaN
      | Finite x \<Rightarrow> (case b of Finite y \<Rightarrow> round_f64 (x + y) | _ \<Rightarrow> b)
      | PosInf \<Rightarrow> (case b of NaN \<Rightarrow> NaN | NegInf \<Rightarrow> NaN | _ \<Rightarrow> PosInf)
      | NegInf \<Rightarrow> (case b of NaN \<Rightarrow> NaN | PosInf \<Rightarrow> NaN | _ \<Rightarrow> NegInf))"

definition f64_mul :: "float64 \<Rightarrow> float64 \<Rightarrow> float64" where
  "f64_mul a b =
     (case a of
        NaN \<Rightarrow> NaN
      | Finite x \<Rightarrow>
          (case b of
             NaN \<Rightarrow> NaN
           | Finite y \<Rightarrow> round_f64 (x * y)
           | _ \<Rightarrow> if x = 0 then NaN else if 0 < x then b else f64_neg b)
      | _ \<Rightarrow>
          (case b of
             NaN \<Rightarrow> NaN
           | Finite y \<Rightarrow> if y = 0 then NaN else if 0 < y then a else f64_neg a
           | PosInf \<Rightarrow> a
           | NegInf \<Rightarrow> f64_neg a))"

definition f64_div :: "float64 \<Rightarrow> float64 \<Rightarrow> float64" where
  "f64_div a b =
     (case a of
        NaN \<Rightarrow> NaN
      | Finite x \<Rightarrow>
          (case b of
             NaN \<Rightarrow> NaN
           | Finite y \<Rightarrow>
               if y = 0 then (if x = 0 then NaN else if 0 < x then PosInf else NegInf)
               else round_f64 (x / y)
           | _ \<Rightarrow> Finite 0)
      | _ \<Rightarrow>
          (case b of
             Finite y \<Rightarrow> if 0 \<le> y then a else f64_neg a
           | _ \<Rightarrow> NaN))"

definition f64_less :: "float64 \<Rightarrow> float64 \<Rightarrow> bool" where
  "f64_less a b =
     (case a of
        NaN \<Rightarrow> False
      | Finite x \<Rightarrow> (case b of Finite y \<Rightarrow> x < y | PosInf \<Rightarrow> True | _ \<Rightarrow> False)
      | PosInf \<Rightarrow> False
      | NegInf \<Rightarrow> (case b of Finite y \<Rightarrow> True | PosInf \<Rightarrow> True | _ \<Rightarrow> False))"


text \<open>
  Conversions \<open>float64(n)\<close> from \<open>int\<close> and from \<open>uint64\<close> round as well (an integer of
  more than 53 bits need not be representable), and \<open>math.MaxFloat64\<close> is
  \<open>2 ^ 1024 - 2 ^ 971\<close>.
\<close>

definition f64_of_int :: "int \<Rightarrow> float64" where
  "f64_of_int n = round_f64 (of_int n)"

definition f64_of_uint64 :: "uint64 \<Rightarrow> float64" where
  "f64_of_uint64 w = round_f64 (of_nat (unat w))"

definition MaxFloat64 :: float64 where
  "MaxFloat64 = Finite ((2 ^ 53 - 1) * 2 ^ 971)"


section \<open>Summarizer\<close>

text \<open>
  \<open>Summary\<close> (summarizer.go). \<open>Sent\<close> and \<open>Lost\<close> are Go \<open>int\<close>s that count the elements
  of a slice, so they never overflow and are integers here. The field \<open>TS\<close> is never
  written ("no longer used") and is left out.
\<close>

record Summary =
  Pd :: "PathDist option"
  RTTAvg :: float64
  RTTMin :: float64
  RTTMax :: float64
  Sent :: int
  Lost :: int
  Loss :: float64

text \<open>\<open>NsToMs\<close> (summarizer.go): nanoseconds to milliseconds.\<close>

definition NsToMs :: "float64 \<Rightarrow> float64" where
  "NsToMs ns = f64_div ns (Finite 1000000)"

text \<open>
  The loops of \<open>CalcRTT\<close>, each over \<open>values\<close> in order: the converted RTTs of the results
  that are not lost, the running total, the minimum (from \<open>math.MaxFloat64\<close>) and the
  maximum (from \<open>0.0\<close>).
\<close>

fun rtt_values :: "Result list \<Rightarrow> float64 list" where
  "rtt_values [] = []"
| "rtt_values (r # rs) =
     (if Result.Lost r then rtt_values rs
      else NsToMs (f64_of_uint64 (Result.RTT r)) # rtt_values rs)"

fun sum_loop :: "float64 list \<Rightarrow> float64 \<Rightarrow> float64" where
  "sum_loop [] tot = tot"
| "sum_loop (v # vs) tot = sum_loop vs (f64_add tot v)"

fun min_loop :: "float64 list \<Rightarrow> float64 \<Rightarrow> float64" where
  "min_loop [] m = m"
| "min_loop (v # vs) m = min_loop vs (if f64_less v m then v else m)"

fun max_loop :: "float64 list \<Rightarrow> float64 \<Rightarrow> float64" where
  "max_loop [] m = m"
| "max_loop (v # vs) m = max_loop vs (if f64_less m v then v else m)"

text \<open>
  \<open>CalcRTT\<close> (summarizer.go) writes the three RTT fields of the summary it is given, and
  returns without writing when there are no results or when all of them are lost.
\<close>

definition CalcRTT :: "Result list \<Rightarrow> Summary \<Rightarrow> Summary" where
  "CalcRTT results summary =
     (if length results = 0 then summary
      else let values = rtt_values results
           in if length values = 0 then summary
              else summary\<lparr>RTTAvg := f64_div (sum_loop values (Finite 0))
                                               (f64_of_int (int (length values))),
                             RTTMin := min_loop values MaxFloat64,
                             RTTMax := max_loop values (Finite 0)\<rparr>)"

text \<open>\<open>CalcCounts\<close> (summarizer.go): the number of results and the number of lost ones.\<close>

fun count_lost :: "Result list \<Rightarrow> int \<Rightarrow> int" where
  "count_lost [] lost = lost"
| "count_lost (r # rs) lost = count_lost rs (if Result.Lost r then lost + 1 else lost)"

definition CalcCounts :: "Result list \<Rightarrow> Summary \<Rightarrow> Summary" where
  "CalcCounts results summary =
     summary\<lparr>Sent := int (length results), Lost := count_lost results 0\<rparr>"

text \<open>
  \<open>CalcLoss\<close> (summarizer.go). The branch for \<open>Sent = 0\<close> stores 0 and does not return;
  the statement after it runs in every case and stores the quotient.
\<close>

definition CalcLoss :: "Summary \<Rightarrow> Summary" where
  "CalcLoss summary =
     (let summary1 = (if Sent summary = 0 then summary\<lparr>Loss := Finite 0\<rparr> else summary)
      in summary1\<lparr>Loss := f64_mul (f64_div (f64_of_int (Summary.Lost summary1))
                                              (f64_of_int (Sent summary1)))
                                     (Finite 100)\<rparr>)"

text \<open>
  \<open>&Summary{Pd: pd}\<close>: a Summary with the given \<open>Pd\<close> and Go's zero value in every other
  field.
\<close>

definition new_Summary :: "PathDist option \<Rightarrow> Summary" where
  "new_Summary pd =
     \<lparr>Summary.Pd = pd, RTTAvg = Finite 0, RTTMin = Finite 0, RTTMax = Finite 0,
      Sent = 0, Summary.Lost = 0, Loss = Finite 0\<rparr>"

text \<open>
  \<open>summarizeSet\<close> (summarizer.go) reads \<open>results[0].Pd\<close> first, which panics on an empty
  slice, then runs the three calculations on a new Summary. The receiver \<open>s\<close> is not used.
\<close>

datatype panic = IndexOutOfRange | NilMapWrite

definition summarizeSet :: "Result list \<Rightarrow> panic + Summary" where
  "summarizeSet results =
     (case results of
        [] \<Rightarrow> Inl IndexOutOfRange
      | r # _ \<Rightarrow>
          (let summary = new_Summary (Result.Pd r);
               summary = CalcCounts results summary;
               summary = CalcLoss summary;
               summary = CalcRTT results summary
           in Inr summary))"

section \<open>Tag sets (tags.go, api.go)\<close>

text \<open>
  \<open>Tags\<close> is \<open>map[string]string\<close> and \<open>TagSet\<close> is \<open>map[string]Tags\<close>. A Go map value is
  nil or refers to a table. Reading a nil map finds no key; writing to it panics. The
  TagSet is therefore an optional table, \<open>None\<close> for nil; \<open>entries\<close> is what a read sees
  and \<open>keys\<close> the set of keys present.
\<close>

type_synonym Tags = "string \<rightharpoonup> string"
type_synonym TagSet = "(string \<rightharpoonup> Tags) option"

definition entries :: "TagSet \<Rightarrow> (string \<rightharpoonup> Tags)" where
  "entries t = (case t of None \<Rightarrow> Map.empty | Some m \<Rightarrow> m)"

definition keys :: "TagSet \<Rightarrow> string set" where
  "keys t = dom (entries t)"

text \<open>
  Of the \<open>API\<close> struct, \<open>MergeUpdateTagSet\<close> touches the field \<open>ts\<close> and the mutex that
  guards it; the model keeps \<open>ts\<close>.
\<close>

record API =
  ts :: TagSet

text \<open>
  The loop \<open>for k, v := range t { api.ts[k] = v }\<close>. Go visits every key of \<open>t\<close> once, in
  an order it does not specify: \<open>ks\<close> is that order, a list of the keys of \<open>t\<close>. The
  assignment panics when \<open>api.ts\<close> is nil.
\<close>

fun merge_range :: "string list \<Rightarrow> (string \<rightharpoonup> Tags) \<Rightarrow> TagSet \<Rightarrow> panic + TagSet" where
  "merge_range [] t dst = Inr dst"
| "merge_range (k # ks) t dst =
     (case t k of
        None \<Rightarrow> merge_range ks t dst
      | Some v \<Rightarrow>
          (case dst of
             None \<Rightarrow> Inl NilMapWrite
           | Some m \<Rightarrow> merge_range ks t (Some (m(k \<mapsto> v)))))"

definition MergeUpdateTagSet :: "API \<Rightarrow> TagSet \<Rightarrow> string list \<Rightarrow> panic + API" where
  "MergeUpdateTagSet api t ks =
     (case merge_range ks (entries t) (ts api) of
        Inl e \<Rightarrow> Inl e
      | Inr dst \<Rightarrow> Inr (api\<lparr>ts := dst\<rparr>))"

section \<open>PortGroup (portgroup.go)\<close>

text \<open>
  Channels live in a store, addressed by an identifier. A buffered channel holds the
  elements sent and not yet received, oldest first, and has a capacity. A send appends
  when there is room. When the buffer is full, and on a nil channel (an identifier with
  no channel in the store), the sending goroutine waits, which is \<open>None\<close> here: the send
  has not happened.
\<close>

type_synonym chan_id = nat
type_synonym port_id = nat

record 'a chan =
  buf :: "'a list"
  cap :: nat

type_synonym 'a chans = "chan_id \<rightharpoonup> 'a chan"

definition chan_send :: "chan_id \<Rightarrow> 'a \<Rightarrow> 'a chans \<Rightarrow> 'a chans option" where
  "chan_send c a st =
     (case st c of
        None \<Rightarrow> None
      | Some ch \<Rightarrow>
          if length (buf ch) < cap ch then Some (st(c \<mapsto> ch\<lparr>buf := buf ch @ [a]\<rparr>)) else None)"

text \<open>
  \<open>PortGroup\<close>: \<open>ports\<close> is the map from each Port to its input channel, listed in the
  order in which \<open>range\<close> visits it; the other three fields are channels.
\<close>

record PortGroup =
  ports :: "(port_id \<times> chan_id) list"
  stop :: chan_id
  cbc :: chan_id
  tosend :: chan_id

text \<open>
  \<open>mux\<close> (portgroup.go) sends the address on the channel of every Port in turn, with a
  plain blocking send. \<open>Forwarded\<close> is the store once the loop has finished. \<open>Blocked\<close>
  is the loop waiting at a send: it holds the Ports not served yet, the waiting one first,
  and the store so far; the loop goes on from there when the channel has room.
\<close>

datatype 'a mux_result =
  Forwarded "'a chans" | Blocked "(port_id \<times> chan_id) list" "'a chans"

fun mux_range :: "(port_id \<times> chan_id) list \<Rightarrow> 'a \<Rightarrow> 'a chans \<Rightarrow> 'a mux_result" where
  "mux_range [] addr st = Forwarded st"
| "mux_range ((p, c) # rest) addr st =
     (case chan_send c addr st of
        None \<Rightarrow> Blocked ((p, c) # rest) st
      | Some st' \<Rightarrow> mux_range rest addr st')"

definition mux :: "PortGroup \<Rightarrow> 'a \<Rightarrow> 'a chans \<Rightarrow> 'a mux_result" where
  "mux pg addr st = mux_range (ports pg) addr st"

text \<open>
  For the properties: the number of Ports of the group whose input channel is \<open>c\<close>, and a
  channel after it has received \<open>n\<close> copies of an element.
\<close>

definition sends_to :: "(port_id \<times> chan_id) list \<Rightarrow> chan_id \<Rightarrow> nat" where
  "sends_to ps c = length (filter (\<lambda>pc. snd pc = c) ps)"

definition received :: "nat \<Rightarrow> 'a \<Rightarrow> 'a chan \<Rightarrow> 'a chan" where
  "received n a ch = ch\<lparr>buf := buf ch @ replicate n a\<rparr>"

section \<open>Properties of the ResultHandler\<close>

lemma Process_unfold:
  "Process probe =
     (if CRcvd probe = 0 then
        (\<lparr>Result.Pd = Probe.Pd probe, Result.RTT = 0, Result.Done = 0, Result.Lost = True\<rparr>, [])
      else if CSent probe > CRcvd probe then
        (\<lparr>Result.Pd = Probe.Pd probe, Result.RTT = 0, Result.Done = CRcvd probe,
          Result.Lost = True\<rparr>,
         [''ERROR:  Probe send/recv times appear to be out of order''])
      else
        (\<lparr>Result.Pd = Probe.Pd probe, Result.RTT = CRcvd probe - CSent probe,
          Result.Done = CRcvd probe, Result.Lost = False\<rparr>, []))"
  by (simp add: Process_def RTT_def HandleMinorError_def)

text \<open>
  Claim C3. The RTT conversion of a probe: a probe never received (\<open>CRcvd = 0\<close>) gives
  RTT 0, lost, and no error; a probe received before it was sent (\<open>CRcvd \<noteq> 0\<close> and
  \<open>CSent > CRcvd\<close>) gives RTT 0, lost, and one reported error; every other probe gives
  RTT \<open>CRcvd - CSent\<close>, not lost, and no error. The error returned by \<open>RTT\<close>, and the
  line logged by \<open>Process\<close>, appear in exactly the clock-inversion case.
\<close>

theorem Process_RTT_cases:
  fixes probe :: Probe
  defines "fresh \<equiv> \<lparr>Result.Pd = Probe.Pd probe, Result.RTT = 0,
                       Result.Done = CRcvd probe, Result.Lost = False\<rparr>"
  shows "(CRcvd probe = 0 \<longrightarrow>
            Result.RTT (fst (Process probe)) = 0 \<and> Result.Lost (fst (Process probe)) \<and>
            fst (RTT probe fresh) = None \<and> snd (Process probe) = [])
       \<and> (CRcvd probe \<noteq> 0 \<and> CSent probe > CRcvd probe \<longrightarrow>
            Result.RTT (fst (Process probe)) = 0 \<and> Result.Lost (fst (Process probe)) \<and>
            fst (RTT probe fresh) \<noteq> None \<and> length (snd (Process probe)) = 1)
       \<and> (CRcvd probe \<noteq> 0 \<and> CSent probe \<le> CRcvd probe \<longrightarrow>
            Result.RTT (fst (Process probe)) = CRcvd probe - CSent probe \<and>
            \<not> Result.Lost (fst (Process probe)) \<and>
            fst (RTT probe fresh) = None \<and> snd (Process probe) = [])
       \<and> (fst (RTT probe fresh) \<noteq> None \<longleftrightarrow> CRcvd probe \<noteq> 0 \<and> CSent probe > CRcvd probe)
       \<and> (snd (Process probe) \<noteq> [] \<longleftrightarrow> CRcvd probe \<noteq> 0 \<and> CSent probe > CRcvd probe)"
  by (auto simp: Process_unfold RTT_def fresh_def)

theorem Process_RTT_cases_witness:
  "Process \<lparr>Probe.Pd = None, CSent = 100000, CRcvd = 200000, Tos = 0\<rparr>
     = (\<lparr>Result.Pd = None, Result.RTT = 100000, Result.Done = 200000, Result.Lost = False\<rparr>, [])
   \<and> Result.Lost (fst (Process \<lparr>Probe.Pd = None, CSent = 100000, CRcvd = 0, Tos = 0\<rparr>))
   \<and> Result.RTT (fst (Process \<lparr>Probe.Pd = None, CSent = 100000, CRcvd = 0, Tos = 0\<rparr>)) = 0
   \<and> snd (Process \<lparr>Probe.Pd = None, CSent = 100000, CRcvd = 0, Tos = 0\<rparr>) = []
   \<and> Result.Lost (fst (Process \<lparr>Probe.Pd = None, CSent = 200000, CRcvd = 100000, Tos = 0\<rparr>))
   \<and> Result.RTT (fst (Process \<lparr>Probe.Pd = None, CSent = 200000, CRcvd = 100000, Tos = 0\<rparr>)) = 0
   \<and> length (snd (Process \<lparr>Probe.Pd = None, CSent = 200000, CRcvd = 100000, Tos = 0\<rparr>)) = 1"
  using Process_RTT_cases [of "\<lparr>Probe.Pd = None, CSent = 100000, CRcvd = 200000, Tos = 0\<rparr>"]
        Process_RTT_cases [of "\<lparr>Probe.Pd = None, CSent = 100000, CRcvd = 0, Tos = 0\<rparr>"]
        Process_RTT_cases [of "\<lparr>Probe.Pd = None, CSent = 200000, CRcvd = 100000, Tos = 0\<rparr>"]
  by (simp add: Process_unfold)

text \<open>
  Claim C10. The Result that \<open>Process\<close> builds has \<open>Done\<close> equal to the probe's \<open>CRcvd\<close>;
  so a probe that was never received (\<open>CRcvd = 0\<close>) yields \<open>Done = 0\<close>, not the time at
  which the loss was detected.
\<close>

theorem Process_Done:
  "Result.Done (fst (Process probe)) = CRcvd probe
   \<and> (CRcvd probe = 0 \<longrightarrow> Result.Done (fst (Process probe)) = 0 \<and>
        Result.Lost (fst (Process probe)))"
  by (simp add: Process_unfold)

theorem Process_Done_witness:
  "Result.Done (fst (Process \<lparr>Probe.Pd = None, CSent = 100000, CRcvd = 0, Tos = 0\<rparr>)) = 0
   \<and> Result.Lost (fst (Process \<lparr>Probe.Pd = None, CSent = 100000, CRcvd = 0, Tos = 0\<rparr>))
   \<and> Result.Done (fst (Process \<lparr>Probe.Pd = None, CSent = 100000, CRcvd = 200000, Tos = 0\<rparr>))
       = 200000"
  using Process_Done [of "\<lparr>Probe.Pd = None, CSent = 100000, CRcvd = 0, Tos = 0\<rparr>"]
        Process_Done [of "\<lparr>Probe.Pd = None, CSent = 100000, CRcvd = 200000, Tos = 0\<rparr>"]
  by simp

section \<open>Facts about \<open>float64\<close> rounding\<close>

text \<open>
  Rules that let the simplifier compute \<open>round_f64\<close> on a literal: bit lengths of
  numerals, and floors and ceilings of literal fractions.
\<close>

lemma bitlen_One: "bitlen 1 = 1"
  by (subst compute_bitlen) simp

lemma bitlen_Bit0: "bitlen (numeral (Num.Bit0 n)) = bitlen (numeral n) + 1"
  by (subst compute_bitlen) simp

lemma bitlen_Bit1: "bitlen (numeral (Num.Bit1 n)) = bitlen (numeral n) + 1"
  by (subst compute_bitlen) simp

lemma floor_rat_numeral_div:
  "\<lfloor>(numeral a :: rat) / numeral b\<rfloor> = numeral a div numeral b"
  using floor_divide_of_int_eq [of "numeral a" "numeral b", where ?'a = rat] by simp

lemma floor_rat_one_div: "\<lfloor>(1 :: rat) / numeral b\<rfloor> = 1 div numeral b"
  using floor_divide_of_int_eq [of 1 "numeral b", where ?'a = rat] by simp

lemma ceiling_rat_numeral_div:
  "\<lceil>(numeral a :: rat) / numeral b\<rceil> = - ((- numeral a) div numeral b)"
  using floor_divide_of_int_eq [of "- numeral a" "numeral b", where ?'a = rat]
  by (simp add: ceiling_def)

lemmas f64_eval =
  floor_rat_numeral_div floor_rat_one_div ceiling_rat_numeral_div
  round_f64_def floor_log2_def pow2_def round_half_even_def Let_def
  bitlen_One bitlen_Bit0 bitlen_Bit1
  f64_add_def f64_mul_def f64_div_def f64_of_int_def f64_of_uint64_def NsToMs_def

text \<open>
  The rounding agrees with IEEE 754 on the textbook cases: \<open>0.1\<close> and \<open>1/3\<close> are the
  doubles every implementation prints, a tie goes to the even significand, and integers
  beyond 53 bits lose their low bits.
\<close>

lemma round_f64_tenth:
  "round_f64 (1 / 10) = Finite (3602879701896397 / 36028797018963968)"
  by (simp add: f64_eval)

lemma round_f64_third:
  "round_f64 (1 / 3) = Finite (6004799503160661 / 18014398509481984)"
  by (simp add: f64_eval)

lemma round_f64_neg_tenth:
  "round_f64 (- 1 / 10) = Finite (- 3602879701896397 / 36028797018963968)"
  by (simp add: f64_eval)

lemma round_f64_ties:
  "round_f64 (2 ^ 53 + 1) = Finite (2 ^ 53)"
  "round_f64 (2 ^ 53 + 3) = Finite (2 ^ 53 + 4)"
  "round_f64 (2 ^ 64 - 1) = Finite (2 ^ 64)"
  by (simp_all add: f64_eval)

text \<open>
  \<open>floor_log2 x\<close> is the exponent of \<open>x\<close>: \<open>2 ^ floor_log2 x \<le> x < 2 ^ (floor_log2 x + 1)\<close>.
  So the rounding of a number between 0 and \<open>B\<close> is finite, not negative and at most
  \<open>2 * B\<close>; in particular every converted RTT is a finite number between 0 and \<open>2 ^ 66\<close>.
\<close>

lemma pow2_power_int: "pow2 e = 2 powi e"
  by (simp add: pow2_def power_int_def inverse_eq_divide power_one_over)

lemma pow2_pos: "0 < pow2 e"
  by (simp add: pow2_power_int)

lemma pow2_mono: "a \<le> b \<Longrightarrow> pow2 a \<le> pow2 b"
  by (simp add: pow2_power_int power_int_increasing)

lemma pow2_nat: "pow2 (int n) = 2 ^ n"
  by (simp add: pow2_def)

lemma pow2_floor_log2_le:
  assumes "0 < x"
  shows "pow2 (floor_log2 x) \<le> x"
proof (cases "1 \<le> x")
  case True
  then have n: "0 < \<lfloor>x\<rfloor>" by linarith
  from bitlen_bounds [OF n] have "2 ^ nat (bitlen \<lfloor>x\<rfloor> - 1) \<le> \<lfloor>x\<rfloor>" by simp
  then have "(of_int (2 ^ nat (bitlen \<lfloor>x\<rfloor> - 1)) :: rat) \<le> of_int \<lfloor>x\<rfloor>"
    by (simp only: of_int_le_iff)
  also have "\<dots> \<le> x" by simp
  finally have le: "(2 :: rat) ^ nat (bitlen \<lfloor>x\<rfloor> - 1) \<le> x" by simp
  have "1 \<le> bitlen \<lfloor>x\<rfloor>" using n by (simp add: bitlen_alt_def)
  then have "pow2 (bitlen \<lfloor>x\<rfloor> - 1) = 2 ^ nat (bitlen \<lfloor>x\<rfloor> - 1)"
    by (simp add: pow2_def)
  with le True show ?thesis by (simp add: floor_log2_def)
next
  case False
  define N where "N = \<lceil>1 / x\<rceil>"
  define k where "k = bitlen (N - 1)"
  from False assms have "1 < 1 / x" by simp
  then have N2: "2 \<le> N" unfolding N_def by linarith
  then have pos: "0 < N - 1" by simp
  from bitlen_bounds [OF pos] have "N - 1 < 2 ^ nat k" by (simp add: k_def)
  then have "N \<le> 2 ^ nat k" by simp
  then have "(of_int N :: rat) \<le> of_int (2 ^ nat k)" by (simp only: of_int_le_iff)
  then have "(of_int N :: rat) \<le> 2 ^ nat k" by simp
  moreover have "1 / x \<le> of_int N" unfolding N_def by simp
  ultimately have "1 / x \<le> 2 ^ nat k" by linarith
  then have "1 \<le> 2 ^ nat k * x" using assms by (simp add: field_simps)
  then have "1 / 2 ^ nat k \<le> x" by (simp add: field_simps)
  moreover have "0 \<le> k" by (simp add: k_def bitlen_nonneg)
  then have "pow2 (- k) = 1 / 2 ^ nat k"
    by (cases "k = 0") (simp_all add: pow2_def)
  ultimately show ?thesis using False by (simp add: floor_log2_def N_def k_def)
qed


lemma round_half_even_bounds:
  assumes "0 \<le> y"
  shows "0 \<le> round_half_even y" and "of_int (round_half_even y) \<le> y + 1"
proof -
  have f: "0 \<le> \<lfloor>y\<rfloor>" using assms by simp
  have u: "of_int \<lfloor>y\<rfloor> \<le> y" by simp
  show "0 \<le> round_half_even y" using f by (simp add: round_half_even_def Let_def)
  have "round_half_even y \<le> \<lfloor>y\<rfloor> + 1" by (simp add: round_half_even_def Let_def)
  then have "(of_int (round_half_even y) :: rat) \<le> of_int (\<lfloor>y\<rfloor> + 1)"
    by (simp only: of_int_le_iff)
  also have "\<dots> \<le> y + 1" using u by simp
  finally show "of_int (round_half_even y) \<le> y + 1" .
qed

lemma round_f64_bounded:
  assumes "0 \<le> x" and "x \<le> B" and "1 \<le> B" and "2 * B < pow2 1024"
  shows "\<exists>r. round_f64 x = Finite r \<and> 0 \<le> r \<and> r \<le> 2 * B"
proof (cases "x = 0")
  case True
  then show ?thesis using assms by (simp add: round_f64_def)
next
  case False
  with assms have x: "0 < x" by simp
  define q where "q = max (floor_log2 x - 52) (- 1074)"
  define m where "m = round_half_even (x / pow2 q)"
  define r where "r = of_int m * pow2 q"
  have y: "0 \<le> x / pow2 q" using x pow2_pos [of q] by simp
  have m0: "0 \<le> m" and m1: "of_int m \<le> x / pow2 q + 1"
    using round_half_even_bounds [OF y] by (simp_all add: m_def)
  have "pow2 (floor_log2 x - 52) \<le> pow2 (floor_log2 x)" by (rule pow2_mono) simp
  also have "\<dots> \<le> x" by (rule pow2_floor_log2_le [OF x])
  finally have a: "pow2 (floor_log2 x - 52) \<le> B" using assms by simp
  have "pow2 (- 1074) \<le> pow2 0" by (rule pow2_mono) simp
  then have b: "pow2 (- 1074) \<le> B" using assms by (simp add: pow2_def)
  have qB: "pow2 q \<le> B" using a b by (simp add: q_def max_def)
  have "r \<le> (x / pow2 q + 1) * pow2 q"
    unfolding r_def using m1 pow2_pos [of q] by (simp only: mult_le_cancel_right_pos)
  also have "\<dots> = x + pow2 q" using pow2_pos [of q] by (simp add: field_simps)
  finally have rB: "r \<le> 2 * B" using assms qB by simp
  have r0: "0 \<le> r" unfolding r_def using m0 pow2_pos [of q] by simp
  have "round_f64 x = Finite r"
    using x rB assms by (simp add: round_f64_def Let_def q_def [symmetric] m_def [symmetric] r_def [symmetric])
  with r0 rB show ?thesis by blast
qed



lemma f64_of_uint64_bounded:
  "\<exists>r. f64_of_uint64 w = Finite r \<and> 0 \<le> r \<and> r \<le> 2 ^ 65"
proof -
  have "unat w < 2 ^ 64" using unsigned_less [of w] by simp
  then have le: "(of_nat (unat w) :: rat) \<le> 2 ^ 64"
    by (metis less_imp_le of_nat_le_iff of_nat_numeral of_nat_power)
  have nn: "(0 :: rat) \<le> of_nat (unat w)" by (rule of_nat_0_le_iff)
  have "\<exists>r. round_f64 (of_nat (unat w)) = Finite r \<and> 0 \<le> r \<and> r \<le> 2 * 2 ^ 64"
    by (rule round_f64_bounded [OF nn le]) (simp_all add: pow2_def)
  then show ?thesis by (simp add: f64_of_uint64_def)
qed

lemma NsToMs_of_uint64_bounded:
  "\<exists>r. NsToMs (f64_of_uint64 w) = Finite r \<and> 0 \<le> r \<and> r \<le> 2 ^ 66"
proof -
  obtain a where a: "f64_of_uint64 w = Finite a" "0 \<le> a" "a \<le> 2 ^ 65"
    using f64_of_uint64_bounded by blast
  have "a / 1000000 \<le> a" using a by simp
  then have le: "a / 1000000 \<le> 2 ^ 65" using a by linarith
  have nn: "0 \<le> a / 1000000" using a by simp
  have "\<exists>r. round_f64 (a / 1000000) = Finite r \<and> 0 \<le> r \<and> r \<le> 2 * 2 ^ 65"
    by (rule round_f64_bounded [OF nn le]) (simp_all add: pow2_def)
  then show ?thesis using a by (simp add: NsToMs_def f64_div_def)
qed

lemma rtt_values_bounded:
  "v \<in> set (rtt_values results) \<Longrightarrow> \<exists>r. v = Finite r \<and> 0 \<le> r \<and> r \<le> 2 ^ 66"
proof (induction results)
  case Nil
  then show ?case by simp
next
  case (Cons a results)
  show ?case
  proof (cases "v = NsToMs (f64_of_uint64 (Result.RTT a))")
    case True
    then show ?thesis by (simp only: NsToMs_of_uint64_bounded)
  next
    case False
    with Cons show ?thesis by (simp split: if_splits)
  qed
qed






















section \<open>Properties of the Summarizer\<close>


lemma CalcLoss_Loss:
  "Loss (CalcLoss s) =
     f64_mul (f64_div (f64_of_int (Summary.Lost s)) (f64_of_int (Sent s))) (Finite 100)"
  by (simp add: CalcLoss_def)


text \<open>
  Claim C2. The Loss field of a Summary is \<open>(Lost / Sent) * 100\<close>, and 0 (never NaN) when
  \<open>Sent = 0\<close>. The code computes the quotient in every case, also after it has stored 0
  for \<open>Sent = 0\<close>: for a Summary with nothing sent and nothing lost, as \<open>CalcLoss\<close>
  receives it from \<open>&Summary{}\<close>, the Loss is \<open>0 / 0 * 100\<close>, which is NaN and not 0.
\<close>

theorem CalcLoss_no_sent_NaN:
  "Loss (CalcLoss s) =
     f64_mul (f64_div (f64_of_int (Summary.Lost s)) (f64_of_int (Sent s))) (Finite 100)
   \<and> Loss (CalcLoss (new_Summary None)) = NaN"
  by (simp add: CalcLoss_Loss new_Summary_def f64_eval)

lemma ms_1: "NsToMs (f64_of_uint64 1000000) = Finite 1"
  by (simp add: f64_eval)

lemma ms_3: "NsToMs (f64_of_uint64 3000000) = Finite 3"
  by (simp add: f64_eval)

lemma sum_1_3: "f64_add (f64_add (Finite 0) (Finite 1)) (Finite 3) = Finite 4"
  by (simp add: f64_eval)

lemma avg_1_3: "f64_div (Finite 4) (f64_of_int 2) = Finite 2"
  by (simp add: f64_eval)

lemma loss_1_of_3:
  "f64_mul (f64_div (f64_of_int 1) (f64_of_int 3)) (Finite 100)
     = Finite (2345624805922133 / 70368744177664)"
  by (simp add: f64_eval)

text \<open>
  Claim C5. Summarizing a bucket of exactly three Results for the same path, with RTTs of
  1,000,000 ns, lost, and 3,000,000 ns, gives the average 2.0, the minimum 1.0, the maximum
  3.0, 3 sent, 1 lost, and the loss \<open>(1 / 3) * 100\<close> in \<open>float64\<close>, which is within
  \<open>10^-14\<close> of \<open>33.333...\<close>. The \<open>Done\<close> times, and the RTT of the lost Result, do not
  matter.
\<close>

theorem summarizeSet_mixed_bucket:
  "summarizeSet
     [\<lparr>Result.Pd = pd, Result.RTT = 1000000, Done = d1, Result.Lost = False\<rparr>,
      \<lparr>Result.Pd = pd, Result.RTT = r2, Done = d2, Result.Lost = True\<rparr>,
      \<lparr>Result.Pd = pd, Result.RTT = 3000000, Done = d3, Result.Lost = False\<rparr>]
   = Inr \<lparr>Summary.Pd = pd, RTTAvg = Finite 2, RTTMin = Finite 1, RTTMax = Finite 3,
           Sent = 3, Summary.Lost = 1, Loss = Finite (2345624805922133 / 70368744177664)\<rparr>
   \<and> Finite (2345624805922133 / 70368744177664)
       = f64_mul (f64_div (f64_of_int 1) (f64_of_int 3)) (f64_of_int 100)
   \<and> \<bar>2345624805922133 / 70368744177664 - 100 / 3 :: rat\<bar> < 1 / 10 ^ 14"
  by (simp add: summarizeSet_def new_Summary_def CalcCounts_def CalcLoss_def CalcRTT_def
      ms_1 ms_3 sum_1_3 avg_1_3 loss_1_of_3 f64_less_def MaxFloat64_def)
     (simp add: f64_eval)








section \<open>Properties of the wire format and of signatures\<close>

lemma byte_bit:
  "bit (push_bit k (ucast (ucast (drop_bit k v :: 64 word) :: 8 word) :: 64 word)) n
     \<longleftrightarrow> k \<le> n \<and> n < k + 8 \<and> bit v n"
proof (cases "k \<le> n")
  case True
  then obtain m where n: "n = k + m" using le_Suc_ex by blast
  show ?thesis
    by (auto simp add: n bit_simps dest: bit_imp_le_length)
next
  case False
  then show ?thesis by (simp add: bit_simps)
qed

lemma byte_bit0:
  "bit (ucast (ucast (v :: 64 word) :: 8 word) :: 64 word) n \<longleftrightarrow> n < 8 \<and> bit v n"
  using byte_bit [of 0 v n] by simp

lemma PutUint64_nth:
  "PutUint64 v ! 0 = ucast v"
  "PutUint64 v ! 1 = ucast (drop_bit 8 v)"
  "PutUint64 v ! 2 = ucast (drop_bit 16 v)"
  "PutUint64 v ! 3 = ucast (drop_bit 24 v)"
  "PutUint64 v ! 4 = ucast (drop_bit 32 v)"
  "PutUint64 v ! 5 = ucast (drop_bit 40 v)"
  "PutUint64 v ! 6 = ucast (drop_bit 48 v)"
  "PutUint64 v ! 7 = ucast (drop_bit 56 v)"
  by (simp_all add: PutUint64_def)

lemma Uint64_PutUint64: "Uint64 (PutUint64 v) = v"
proof (rule bit_word_eqI)
  fix n
  assume "n < LENGTH(64)"
  then have n: "n < 64" by simp
  have "bit (Uint64 (PutUint64 v)) n \<longleftrightarrow>
          (n < 8 \<and> bit v n) \<or> (8 \<le> n \<and> n < 8 + 8 \<and> bit v n)
          \<or> (16 \<le> n \<and> n < 16 + 8 \<and> bit v n) \<or> (24 \<le> n \<and> n < 24 + 8 \<and> bit v n)
          \<or> (32 \<le> n \<and> n < 32 + 8 \<and> bit v n) \<or> (40 \<le> n \<and> n < 40 + 8 \<and> bit v n)
          \<or> (48 \<le> n \<and> n < 48 + 8 \<and> bit v n) \<or> (56 \<le> n \<and> n < 56 + 8 \<and> bit v n)"
    by (simp only: Uint64_def PutUint64_nth bit_or_iff byte_bit byte_bit0 disj_assoc)
  also have "\<dots> \<longleftrightarrow> bit v n"
  proof (cases "bit v n")
    case True
    have "n < 8 \<or> 8 \<le> n \<and> n < 8 + 8 \<or> 16 \<le> n \<and> n < 16 + 8 \<or> 24 \<le> n \<and> n < 24 + 8
          \<or> 32 \<le> n \<and> n < 32 + 8 \<or> 40 \<le> n \<and> n < 40 + 8 \<or> 48 \<le> n \<and> n < 48 + 8
          \<or> 56 \<le> n \<and> n < 56 + 8"
      using n by arith
    with True show ?thesis by simp
  next
    case False
    then show ?thesis by simp
  qed
  finally show "bit (Uint64 (PutUint64 v)) n \<longleftrightarrow> bit v n" .
qed

lemma length_PutUint64: "length (PutUint64 v) = 8"
  by (simp add: PutUint64_def)

lemma UnpackUdpData_short:
  "length data < 36 \<Longrightarrow> UnpackUdpData data = (zero_UdpData, Some ''Invalid data received'')"
  by (simp add: UnpackUdpData_def)

text \<open>
  Claim C8. For every \<open>UdpData\<close> value (a signature of 10 bytes, \<open>tos\<close>, \<open>sent\<close>, \<open>rcvd\<close>,
  \<open>rtt\<close>, \<open>lost\<close>), unpacking its packed little-endian encoding gives back a value equal
  to the original in every field, with no error from either function; the encoding is 36
  bytes long.
\<close>

theorem Unpack_Pack_UdpData:
  "length (Signature d) = 10 \<Longrightarrow>
     UnpackUdpData (fst (PackUdpData d)) = (d, None) \<and> snd (PackUdpData d) = None
     \<and> length (fst (PackUdpData d)) = 36"
  by (simp add: UnpackUdpData_def PackUdpData_def length_PutUint64 nth_append Uint64_PutUint64)

theorem Unpack_Pack_UdpData_witness:
  "UnpackUdpData (fst (PackUdpData
      \<lparr>Signature = [97, 98, 99, 100, 101, 102, 103, 104, 105, 106], UdpData.Tos = 240,
       UdpData.Sent = 1234123412, UdpData.Rcvd = 1234567890, UdpData.RTT = 444478,
       UdpData.Lost = 1\<rparr>))
   = (\<lparr>Signature = [97, 98, 99, 100, 101, 102, 103, 104, 105, 106], UdpData.Tos = 240,
       UdpData.Sent = 1234123412, UdpData.Rcvd = 1234567890, UdpData.RTT = 444478,
       UdpData.Lost = 1\<rparr>, None)"
  using Unpack_Pack_UdpData [of
      "\<lparr>Signature = [97, 98, 99, 100, 101, 102, 103, 104, 105, 106], UdpData.Tos = 240,
        UdpData.Sent = 1234123412, UdpData.Rcvd = 1234567890, UdpData.RTT = 444478,
        UdpData.Lost = 1\<rparr>"]
  by simp

text \<open>
  Claim C9. The signature generator returns a string of exactly 10 bytes, the last 10 of
  the 16 bytes of the UUID it has drawn, and \<open>IDToBytes\<close> turns that string into the
  10-byte array holding exactly those bytes.
\<close>

theorem NewID_IDToBytes:
  "length fullUUID = 16 \<Longrightarrow>
     length (NewID fullUUID) = 10 \<and> NewID fullUUID = drop 6 fullUUID
     \<and> (\<forall>i < 10. NewID fullUUID ! i = fullUUID ! (6 + i))
     \<and> length (IDToBytes (NewID fullUUID)) = 10
     \<and> IDToBytes (NewID fullUUID) = NewID fullUUID"
  by (simp add: NewID_def IDToBytes_def)

theorem NewID_IDToBytes_witness:
  "NewID [0, 1, 2, 3, 4, 5, 6, 7, 8, 9, 10, 11, 12, 13, 14, 15]
     = [6, 7, 8, 9, 10, 11, 12, 13, 14, 15]
   \<and> IDToBytes (NewID [0, 1, 2, 3, 4, 5, 6, 7, 8, 9, 10, 11, 12, 13, 14, 15])
     = [6, 7, 8, 9, 10, 11, 12, 13, 14, 15]"
proof -
  have "length [0 :: byte, 1, 2, 3, 4, 5, 6, 7, 8, 9, 10, 11, 12, 13, 14, 15] = 16" by simp
  from NewID_IDToBytes [OF this]
  have "NewID [0, 1, 2, 3, 4, 5, 6, 7, 8, 9, 10, 11, 12, 13, 14, 15]
          = drop 6 [0, 1, 2, 3, 4, 5, 6, 7, 8, 9, 10, 11, 12, 13, 14, 15]"
    and "IDToBytes (NewID [0, 1, 2, 3, 4, 5, 6, 7, 8, 9, 10, 11, 12, 13, 14, 15])
          = NewID [0, 1, 2, 3, 4, 5, 6, 7, 8, 9, 10, 11, 12, 13, 14, 15]"
    by blast+
  then show ?thesis by simp
qed

section \<open>Properties of the tag set merge\<close>

lemma merge_range_Some:
  "merge_range ks t (Some m) = Inr (Some (\<lambda>k. if k \<in> set ks \<and> k \<in> dom t then t k else m k))"
proof (induction ks arbitrary: m)
  case Nil
  then show ?case by simp
next
  case (Cons k ks)
  show ?case
  proof (cases "t k")
    case None
    then show ?thesis by (auto simp: Cons.IH fun_eq_iff domIff)
  next
    case (Some v)
    then show ?thesis by (auto simp: Cons.IH fun_eq_iff domIff)
  qed
qed

lemma merge_range_None:
  "merge_range ks t None = (if set ks \<inter> dom t = {} then Inr None else Inl NilMapWrite)"
  by (induction ks) (auto split: option.splits)

text \<open>
  Claim C7 speaks of all TagSets \<open>A\<close> and \<open>B\<close>. Merging one entry into the nil TagSet: the
  first assignment panics, and no TagSet results.
\<close>

theorem MergeUpdateTagSet_nil_panics:
  "MergeUpdateTagSet \<lparr>ts = None\<rparr> (Some [''1.2.3.4'' \<mapsto> [''a'' \<mapsto> ''b'']]) [''1.2.3.4'']
     = Inl NilMapWrite"
  by (simp add: MergeUpdateTagSet_def entries_def)

text \<open>
  Claim C7, as the code has it. For every TagSet \<open>A\<close> that is not nil (or when \<open>B\<close> has no
  key), and every TagSet \<open>B\<close>, visited in any order: merging \<open>B\<close> into \<open>A\<close> yields a TagSet
  whose key set is \<open>keys A \<union> keys B\<close>; no key of \<open>A\<close> is deleted, a key present only in
  \<open>A\<close> keeps the value it has in \<open>A\<close>, and every key of \<open>B\<close> has the value it has in \<open>B\<close>.
\<close>

theorem MergeUpdateTagSet_union:
  assumes "set ks = keys B" and "A \<noteq> None \<or> keys B = {}"
  shows "\<exists>api'. MergeUpdateTagSet \<lparr>ts = A\<rparr> B ks = Inr api'
           \<and> keys (ts api') = keys A \<union> keys B
           \<and> (\<forall>k. k \<in> keys A \<and> k \<notin> keys B \<longrightarrow> entries (ts api') k = entries A k)
           \<and> (\<forall>k. k \<in> keys B \<longrightarrow> entries (ts api') k = entries B k)
           \<and> entries (ts api') = entries A ++ entries B"
proof (cases A)
  case None
  with assms have "keys B = {}" by simp
  with None assms(1) show ?thesis
    by (simp add: MergeUpdateTagSet_def merge_range_None keys_def entries_def)
next
  case (Some m)
  have eq: "(\<lambda>k. if k \<in> set ks \<and> k \<in> dom (entries B) then entries B k else m k)
              = m ++ entries B"
    using assms(1) by (auto simp: fun_eq_iff keys_def map_add_def split: option.splits)
  have res: "MergeUpdateTagSet \<lparr>ts = A\<rparr> B ks = Inr \<lparr>ts = Some (m ++ entries B)\<rparr>"
    using Some by (simp add: MergeUpdateTagSet_def merge_range_Some eq)
  have A: "entries A = m" using Some by (simp add: entries_def)
  have eS: "entries (Some (m ++ entries B)) = m ++ entries B" by (simp add: entries_def)
  have "keys (Some (m ++ entries B)) = keys A \<union> keys B"
    unfolding keys_def eS A by auto
  moreover have "\<forall>k. k \<in> keys A \<and> k \<notin> keys B \<longrightarrow> (m ++ entries B) k = entries A k"
    by (simp add: keys_def A map_add_dom_app_simps)
  moreover have "\<forall>k. k \<in> keys B \<longrightarrow> (m ++ entries B) k = entries B k"
    by (simp add: keys_def map_add_dom_app_simps)
  ultimately show ?thesis
    by (simp add: res A eS)
qed

theorem MergeUpdateTagSet_union_witness:
  "\<exists>api'. MergeUpdateTagSet
             \<lparr>ts = Some [''example'' \<mapsto> [''mytag'' \<mapsto> ''myvalue''], ''old'' \<mapsto> [''a'' \<mapsto> ''x'']]\<rparr>
             (Some [''1.2.3.4'' \<mapsto> [''a'' \<mapsto> ''b''], ''old'' \<mapsto> [''a'' \<mapsto> ''y'']])
             [''old'', ''1.2.3.4''] = Inr api'
      \<and> keys (ts api') = {''example'', ''old'', ''1.2.3.4''}
      \<and> entries (ts api') ''example'' = Some [''mytag'' \<mapsto> ''myvalue'']
      \<and> entries (ts api') ''old'' = Some [''a'' \<mapsto> ''y'']
      \<and> entries (ts api') ''1.2.3.4'' = Some [''a'' \<mapsto> ''b'']"
proof -
  let ?A = "Some [''example'' \<mapsto> [''mytag'' \<mapsto> ''myvalue''], ''old'' \<mapsto> [''a'' \<mapsto> ''x'']] :: TagSet"
  let ?B = "Some [''1.2.3.4'' \<mapsto> [''a'' \<mapsto> ''b''], ''old'' \<mapsto> [''a'' \<mapsto> ''y'']] :: TagSet"
  have kA: "keys ?A = {''example'', ''old''}" by (auto simp: keys_def entries_def)
  have kB: "keys ?B = {''1.2.3.4'', ''old''}" by (auto simp: keys_def entries_def)
  have h1: "set [''old'', ''1.2.3.4''] = keys ?B" unfolding kB by auto
  have h2: "?A \<noteq> None \<or> keys ?B = {}" by simp
  from MergeUpdateTagSet_union [OF h1 h2]
  obtain api' where r: "MergeUpdateTagSet \<lparr>ts = ?A\<rparr> ?B [''old'', ''1.2.3.4''] = Inr api'"
    and k: "keys (ts api') = keys ?A \<union> keys ?B"
    and e: "entries (ts api') = entries ?A ++ entries ?B"
    by blast
  have "keys (ts api') = {''example'', ''old'', ''1.2.3.4''}" unfolding k kA kB by auto
  moreover have "entries (ts api') ''example'' = Some [''mytag'' \<mapsto> ''myvalue'']"
    "entries (ts api') ''old'' = Some [''a'' \<mapsto> ''y'']"
    "entries (ts api') ''1.2.3.4'' = Some [''a'' \<mapsto> ''b'']"
    unfolding e by (simp_all add: entries_def map_add_def)
  ultimately show ?thesis using r by blast
qed

section \<open>Properties of the PortGroup\<close>

lemma received_0: "received 0 a ch = ch"
  by (simp add: received_def)

lemma sends_to_Cons:
  "sends_to ((p, c) # ps) c' = (if c = c' then Suc (sends_to ps c') else sends_to ps c')"
  by (simp add: sends_to_def)

lemma sends_to_pos: "(p, c) \<in> set ps \<Longrightarrow> 0 < sends_to ps c"
  by (induction ps) (auto simp: sends_to_def)

lemma sends_to_0: "c \<notin> snd ` set ps \<Longrightarrow> sends_to ps c = 0"
  by (induction ps) (auto simp: sends_to_def)

lemma mux_range_Forwarded:
  assumes "\<And>p c. (p, c) \<in> set ps \<Longrightarrow>
             \<exists>ch. st c = Some ch \<and> length (buf ch) + sends_to ps c \<le> cap ch"
  shows "mux_range ps addr st
           = Forwarded (\<lambda>c. map_option (received (sends_to ps c) addr) (st c))"
  using assms
proof (induction ps arbitrary: st)
  case Nil
  then show ?case by (simp add: sends_to_def received_def option.map_ident)
next
  case (Cons pc ps)
  obtain p c where pc: "pc = (p, c)" by (cases pc)
  from Cons.prems [of p c] pc obtain ch where ch: "st c = Some ch"
      and room: "length (buf ch) + Suc (sends_to ps c) \<le> cap ch"
    by (auto simp: sends_to_Cons)
  define st1 where "st1 = st(c \<mapsto> ch\<lparr>buf := buf ch @ [addr]\<rparr>)"
  have send: "chan_send c addr st = Some st1"
    using ch room by (simp add: chan_send_def st1_def)
  have prem1: "\<exists>ch'. st1 c' = Some ch' \<and> length (buf ch') + sends_to ps c' \<le> cap ch'"
    if "(p', c') \<in> set ps" for p' c'
  proof (cases "c' = c")
    case True
    then show ?thesis using room by (simp add: st1_def)
  next
    case False
    from Cons.prems [of p' c'] that pc False show ?thesis
      by (auto simp: st1_def sends_to_Cons)
  qed
  have "mux_range (pc # ps) addr st = mux_range ps addr st1"
    by (simp add: pc send)
  also have "\<dots> = Forwarded (\<lambda>c'. map_option (received (sends_to ps c') addr) (st1 c'))"
    by (rule Cons.IH) (rule prem1)
  also have "(\<lambda>c'. map_option (received (sends_to ps c') addr) (st1 c'))
               = (\<lambda>c'. map_option (received (sends_to (pc # ps) c') addr) (st c'))"
    by (auto simp: fun_eq_iff st1_def pc sends_to_Cons ch received_def replicate_append_same)
  finally show ?case .
qed

lemma mux_range_append:
  "mux_range (ps @ qs) addr st =
     (case mux_range ps addr st of
        Forwarded st' \<Rightarrow> mux_range qs addr st'
      | Blocked rest st' \<Rightarrow> Blocked (rest @ qs) st')"
  by (induction ps arbitrary: st) (auto split: option.splits)

lemma mux_range_Blocked:
  "mux_range ps addr st = Blocked rest st' \<Longrightarrow>
     \<exists>served p c rest'. ps = served @ rest \<and> rest = (p, c) # rest'
        \<and> mux_range served addr st = Forwarded st' \<and> chan_send c addr st' = None"
proof (induction ps arbitrary: st)
  case Nil
  then show ?case by simp
next
  case (Cons pc ps)
  obtain p c where pc: "pc = (p, c)" by (cases pc)
  show ?case
  proof (cases "chan_send c addr st")
    case None
    with Cons.prems pc have "rest = (p, c) # ps" "st' = st" by simp_all
    with None pc show ?thesis by (intro exI [of _ "[]"]) simp
  next
    case (Some st1)
    with Cons.prems pc have "mux_range ps addr st1 = Blocked rest st'" by simp
    from Cons.IH [OF this] obtain served q d rest' where
      "ps = served @ rest" "rest = (q, d) # rest'"
      "mux_range served addr st1 = Forwarded st'" "chan_send d addr st' = None"
      by blast
    with Some pc show ?thesis by (intro exI [of _ "pc # served"]) simp
  qed
qed


lemma mux_range_result:
  "mux_range ps addr st = Forwarded st' \<Longrightarrow>
     st' = (\<lambda>c. map_option (received (sends_to ps c) addr) (st c))"
proof (induction ps arbitrary: st)
  case Nil
  then show ?case by (simp add: sends_to_def received_def option.map_ident)
next
  case (Cons pc ps)
  obtain p c where pc: "pc = (p, c)" by (cases pc)
  from Cons.prems pc obtain st1 where send: "chan_send c addr st = Some st1"
      and run: "mux_range ps addr st1 = Forwarded st'"
    by (auto split: option.splits)
  from send obtain ch where ch: "st c = Some ch"
      and st1: "st1 = st(c \<mapsto> ch\<lparr>buf := buf ch @ [addr]\<rparr>)"
    by (auto simp: chan_send_def split: option.splits if_splits)
  have "st' = (\<lambda>c'. map_option (received (sends_to ps c') addr) (st1 c'))"
    by (rule Cons.IH [OF run])
  also have "\<dots> = (\<lambda>c'. map_option (received (sends_to (pc # ps) c') addr) (st c'))"
    by (auto simp: fun_eq_iff st1 pc sends_to_Cons ch received_def replicate_append_same)
  finally show ?case .
qed

lemma sends_to_distinct:
  "distinct (map snd ps) \<Longrightarrow> (p, c) \<in> set ps \<Longrightarrow> sends_to ps c = 1"
  by (induction ps) (auto simp: sends_to_def filter_empty_conv image_iff)

text \<open>
  Claim C6. For every address handed to the mux: the loop sends that exact address on the
  input channel of every Port, once for each Port, in the order of the group. When no
  send has to wait (every channel has room for what the group sends to it) the loop
  finishes. When it has finished, every channel holds what it held before followed by one
  copy of the address for each Port that reads from it, which is exactly one copy when
  the Ports have channels of their own, and no other channel has changed: no Port is
  skipped and none receives a duplicate. While the loop waits at a full channel, the Ports
  before the waiting one have received their copy, and the others none yet.
\<close>

theorem mux_forwards_once:
  "((\<forall>(p, c) \<in> set (ports pg).
        \<exists>ch. st c = Some ch \<and> length (buf ch) + sends_to (ports pg) c \<le> cap ch)
      \<longrightarrow> (\<exists>st'. mux pg addr st = Forwarded st'))
   \<and> (\<forall>st'. mux pg addr st = Forwarded st' \<longrightarrow>
         (\<forall>c. st' c = map_option (received (sends_to (ports pg) c) addr) (st c))
       \<and> (\<forall>(p, c) \<in> set (ports pg). 1 \<le> sends_to (ports pg) c
              \<and> (distinct (map snd (ports pg)) \<longrightarrow> sends_to (ports pg) c = 1))
       \<and> (\<forall>c. c \<notin> snd ` set (ports pg) \<longrightarrow> st' c = st c))
   \<and> (\<forall>rest st'. mux pg addr st = Blocked rest st' \<longrightarrow>
         (\<exists>served p c rest'. ports pg = served @ rest \<and> rest = (p, c) # rest'
            \<and> chan_send c addr st' = None
            \<and> (\<forall>c. st' c = map_option (received (sends_to served c) addr) (st c))))"
proof (intro conjI allI impI)
  assume "\<forall>(p, c) \<in> set (ports pg).
      \<exists>ch. st c = Some ch \<and> length (buf ch) + sends_to (ports pg) c \<le> cap ch"
  then have "mux pg addr st
      = Forwarded (\<lambda>c. map_option (received (sends_to (ports pg) c) addr) (st c))"
    unfolding mux_def by (intro mux_range_Forwarded) auto
  then show "\<exists>st'. mux pg addr st = Forwarded st'" by blast
next
  fix st' c
  assume "mux pg addr st = Forwarded st'"
  then have st': "st' = (\<lambda>c. map_option (received (sends_to (ports pg) c) addr) (st c))"
    unfolding mux_def by (rule mux_range_result)
  show "st' c = map_option (received (sends_to (ports pg) c) addr) (st c)"
    by (simp add: st')
  assume "c \<notin> snd ` set (ports pg)"
  then show "st' c = st c"
    by (cases "st c") (simp_all add: st' sends_to_0 received_0)
next
  fix st'
  assume "mux pg addr st = Forwarded st'"
  show "\<forall>(p, c) \<in> set (ports pg). 1 \<le> sends_to (ports pg) c
          \<and> (distinct (map snd (ports pg)) \<longrightarrow> sends_to (ports pg) c = 1)"
    using sends_to_pos [of _ _ "ports pg"] sends_to_distinct [of "ports pg"]
    by (auto simp: Suc_le_eq)
next
  fix rest st'
  assume "mux pg addr st = Blocked rest st'"
  then have "mux_range (ports pg) addr st = Blocked rest st'" by (simp add: mux_def)
  from mux_range_Blocked [OF this] obtain served p c rest' where
    "ports pg = served @ rest" "rest = (p, c) # rest'"
    "mux_range served addr st = Forwarded st'" "chan_send c addr st' = None"
    by blast
  with mux_range_result [of served addr st st']
  show "\<exists>served p c rest'. ports pg = served @ rest \<and> rest = (p, c) # rest'
            \<and> chan_send c addr st' = None
            \<and> (\<forall>c. st' c = map_option (received (sends_to served c) addr) (st c))"
    by blast
qed

theorem mux_forwards_once_witness:
  "\<exists>st'. mux \<lparr>ports = [(1, 10), (2, 20)], stop = 0, cbc = 1, tosend = 2\<rparr> ''0.0.0.0:0''
            [10 \<mapsto> \<lparr>buf = [], cap = 10\<rparr>, 20 \<mapsto> \<lparr>buf = [], cap = 10\<rparr>] = Forwarded st'
      \<and> st' 10 = Some \<lparr>buf = [''0.0.0.0:0''], cap = 10\<rparr>
      \<and> st' 20 = Some \<lparr>buf = [''0.0.0.0:0''], cap = 10\<rparr>"
proof -
  let ?pg = "\<lparr>ports = [(1, 10), (2, 20)], stop = 0, cbc = 1, tosend = 2\<rparr>"
  let ?st = "[10 \<mapsto> \<lparr>buf = [], cap = 10\<rparr>, 20 \<mapsto> \<lparr>buf = [], cap = 10\<rparr>] :: string chans"
  note inst = mux_forwards_once [of ?pg ?st "''0.0.0.0:0''"]
  have room: "\<forall>(p, c) \<in> set (ports ?pg).
      \<exists>ch. ?st c = Some ch \<and> length (buf ch) + sends_to (ports ?pg) c \<le> cap ch"
    by (simp add: sends_to_def)
  with inst obtain st' where run: "mux ?pg ''0.0.0.0:0'' ?st = Forwarded st'" by blast
  with inst have "\<forall>c. st' c = map_option (received (sends_to (ports ?pg) c) ''0.0.0.0:0'') (?st c)"
    by blast
  then have "st' 10 = Some \<lparr>buf = [''0.0.0.0:0''], cap = 10\<rparr>"
    and "st' 20 = Some \<lparr>buf = [''0.0.0.0:0''], cap = 10\<rparr>"
    by (simp_all add: sends_to_def received_def)
  with run show ?thesis by blast
qed

end
